theory Spec2Isabelle
  imports Complex_Main
begin

section \<open>Chat read-retrieve-read approach: data model\<close>

text \<open>
  The embedding follows \<^verbatim>\<open>ChatReadRetrieveRead\<close> (the retrieve-then-read chat approach).
  JavaScript strings are lists of characters; a value that may be \<^verbatim>\<open>undefined\<close> or
  \<^verbatim>\<open>null\<close> is an \<open>option\<close>; numbers that count tokens are integers.
\<close>

datatype MessageRole = System | User | Assistant

record Message =
  role :: MessageRole
  content :: string

record HistoryMessage =
  user :: "string option"
  bot :: "string option"

text \<open>
  The token meter (\<^verbatim>\<open>tiktoken\<close> behind \<^verbatim>\<open>getTokenCountFromMessages\<close>) is an external
  collaborator: it is a parameter, taking the model name and a message.
\<close>

type_synonym TokenMeter = "string \<Rightarrow> Message \<Rightarrow> int"

text \<open>JavaScript truthiness of an optional string: defined and not empty.\<close>

fun truthy :: "string option \<Rightarrow> bool" where
  "truthy None = False"
| "truthy (Some s) = (s \<noteq> [])"

text \<open>String conversion of an optional string in a concatenation or template literal.\<close>

fun toStr :: "string option \<Rightarrow> string" where
  "toStr None = ''undefined''"
| "toStr (Some s) = s"

definition QUERY_PROMPT_TEMPLATE :: string where
  "QUERY_PROMPT_TEMPLATE = ''Below is a history of the conversation so far, and a new question asked by the user that needs to be answered by searching in a knowledge base about terms of service, privacy policy, and questions about support requests.\<newline>Generate a search query based on the conversation and the new question.\<newline>Do not include cited source filenames and document names e.g info.txt or doc.pdf in the search query terms.\<newline>Do not include any text inside [] or <<>> in the search query terms.\<newline>Do not include any special characters like '+'.\<newline>If the question is not in English, translate the question to English before generating the search query.\<newline>If you cannot generate a search query, return just the number 0.\<newline>''"

definition QUERY_PROMPT_FEW_SHOTS :: "Message list" where
  "QUERY_PROMPT_FEW_SHOTS =
    [\<lparr>role = User, content = ''What happens if a payment error occurs?''\<rparr>,
     \<lparr>role = Assistant, content = ''Show support for payment errors''\<rparr>,
     \<lparr>role = User, content = ''can I get refunded if cannot travel?''\<rparr>,
     \<lparr>role = Assistant, content = ''Refund policy''\<rparr>]"

section \<open>The message builder\<close>

text \<open>
  Modelled from the spec: the class \<^verbatim>\<open>MessageBuilder\<close> (\<^verbatim>\<open>../message-builder.js\<close>) is not
  among the sources. The spec's assembler starts from the system prompt at position 0,
  inserts each message at an insertion anchor (an index into the sequence; the few-shot
  loop passes none and the anchor is then position 1, right after the system message) and
  keeps a cumulative token cost that grows by the meter's cost of every inserted message.
\<close>

record MessageBuilder =
  messages :: "Message list"
  model :: string
  tokens :: int

text \<open>Modelled from the spec: the constructor, with the system prompt at position 0.\<close>

definition newMessageBuilder :: "TokenMeter \<Rightarrow> string \<Rightarrow> string \<Rightarrow> MessageBuilder" where
  "newMessageBuilder meter systemContent chatgptModel =
     \<lparr>messages = [\<lparr>role = System, content = systemContent\<rparr>],
      model = chatgptModel,
      tokens = meter chatgptModel \<lparr>role = System, content = systemContent\<rparr>\<rparr>"

text \<open>\<^verbatim>\<open>Array.prototype.splice(index, 0, x)\<close>: an index past the end inserts at the end.\<close>

definition splice :: "nat \<Rightarrow> 'a \<Rightarrow> 'a list \<Rightarrow> 'a list" where
  "splice index x xs = take index xs @ [x] @ drop index xs"

text \<open>
  Modelled from the spec: \<^verbatim>\<open>appendMessage(role, content, index)\<close> inserts at the anchor and
  adds the message's cost to the cumulative cost.
\<close>

definition appendMessage ::
  "TokenMeter \<Rightarrow> MessageRole \<Rightarrow> string \<Rightarrow> nat \<Rightarrow> MessageBuilder \<Rightarrow> MessageBuilder" where
  "appendMessage meter r c index mb =
     mb\<lparr>messages := splice index \<lparr>role = r, content = c\<rparr> (messages mb),
        tokens := tokens mb + meter (model mb) \<lparr>role = r, content = c\<rparr>\<rparr>"

section \<open>The conversation assembler\<close>

text \<open>
  One turn of the history walk: the assistant text, then the user text, both inserted at
  the anchor when truthy.
\<close>

definition appendTurn :: "TokenMeter \<Rightarrow> nat \<Rightarrow> HistoryMessage \<Rightarrow> MessageBuilder \<Rightarrow> MessageBuilder" where
  "appendTurn meter appendIndex historyMessage mb =
     (let mb1 = (case bot historyMessage of
                   Some b \<Rightarrow> if b \<noteq> [] then appendMessage meter Assistant b appendIndex mb else mb
                 | None \<Rightarrow> mb);
          mb2 = (case user historyMessage of
                   Some u \<Rightarrow> if u \<noteq> [] then appendMessage meter User u appendIndex mb1 else mb1
                 | None \<Rightarrow> mb1)
      in mb2)"

text \<open>
  The loop over \<^verbatim>\<open>history.slice(0, -1).reverse()\<close>: after each turn the cumulative cost is
  compared with the budget, and the loop breaks once the cost is above it.
\<close>

fun walkHistory ::
  "TokenMeter \<Rightarrow> int \<Rightarrow> nat \<Rightarrow> HistoryMessage list \<Rightarrow> MessageBuilder \<Rightarrow> MessageBuilder" where
  "walkHistory meter maxTokens appendIndex [] mb = mb"
| "walkHistory meter maxTokens appendIndex (historyMessage # rest) mb =
     (let mb' = appendTurn meter appendIndex historyMessage mb
      in if tokens mb' > maxTokens then mb'
         else walkHistory meter maxTokens appendIndex rest mb')"

text \<open>
  \<^verbatim>\<open>getMessagesFromHistory\<close>. The argument \<open>fewShots\<close> is the content of the caller's array
  when the call starts; \<^verbatim>\<open>fewShots.reverse()\<close> reverses that array in place, so the function
  returns, beside the messages, the content of the caller's array when the call ends.
  \<^verbatim>\<open>history.slice(0, -1)\<close> is a copy, and \<open>history\<close> itself is left as it was. Both call
  sites pass every argument, so the parameter defaults are never taken.
\<close>

definition getMessagesFromHistory ::
  "TokenMeter \<Rightarrow> string \<Rightarrow> string \<Rightarrow> HistoryMessage list \<Rightarrow> string \<Rightarrow> Message list \<Rightarrow> int
     \<Rightarrow> Message list \<times> Message list" where
  "getMessagesFromHistory meter systemPrompt mdl history userContent fewShots maxTokens =
     (let messageBuilder = newMessageBuilder meter systemPrompt mdl;
          reversed = rev fewShots;
          messageBuilder = fold (\<lambda>shot. appendMessage meter (role shot) (content shot) 1)
                             reversed messageBuilder;
          appendIndex = length reversed + 1;
          messageBuilder = appendMessage meter User userContent appendIndex messageBuilder;
          messageBuilder = walkHistory meter maxTokens appendIndex (rev (butlast history))
                             messageBuilder
      in (map (\<lambda>m. \<lparr>role = role m, content = content m\<rparr>) (messages messageBuilder),
          reversed))"

text \<open>The messages a turn contributes, in their final order: user text, then assistant text.\<close>

definition turnMessages :: "HistoryMessage \<Rightarrow> Message list" where
  "turnMessages h =
     (if truthy (user h) then [\<lparr>role = User, content = toStr (user h)\<rparr>] else []) @
     (if truthy (bot h) then [\<lparr>role = Assistant, content = toStr (bot h)\<rparr>] else [])"

text \<open>
  How many turns the walk visits before it ends or breaks: the same recursion as
  \<open>walkHistory\<close>, counting the iterations.
\<close>

fun turnsWalked ::
  "TokenMeter \<Rightarrow> int \<Rightarrow> nat \<Rightarrow> HistoryMessage list \<Rightarrow> MessageBuilder \<Rightarrow> nat" where
  "turnsWalked meter maxTokens appendIndex [] mb = 0"
| "turnsWalked meter maxTokens appendIndex (historyMessage # rest) mb =
     (let mb' = appendTurn meter appendIndex historyMessage mb
      in if tokens mb' > maxTokens then 1
         else 1 + turnsWalked meter maxTokens appendIndex rest mb')"

text \<open>
  The builder as the history walk finds it: system prompt, few-shots and the trailing
  user content are in place.
\<close>

definition beforeHistory ::
  "TokenMeter \<Rightarrow> string \<Rightarrow> string \<Rightarrow> string \<Rightarrow> Message list \<Rightarrow> MessageBuilder" where
  "beforeHistory meter systemPrompt mdl userContent fewShots =
     appendMessage meter User userContent (length (rev fewShots) + 1)
       (fold (\<lambda>shot. appendMessage meter (role shot) (content shot) 1) (rev fewShots)
          (newMessageBuilder meter systemPrompt mdl))"

text \<open>The number of history turns the walk of \<open>getMessagesFromHistory\<close> inserts.\<close>

definition includedTurns ::
  "TokenMeter \<Rightarrow> string \<Rightarrow> string \<Rightarrow> HistoryMessage list \<Rightarrow> string \<Rightarrow> Message list \<Rightarrow> int \<Rightarrow> nat" where
  "includedTurns meter systemPrompt mdl history userContent fewShots maxTokens =
     turnsWalked meter maxTokens (length fewShots + 1) (rev (butlast history))
       (beforeHistory meter systemPrompt mdl userContent fewShots)"

text \<open>The \<open>k\<close> newest turns the walk can reach (all turns but the last), oldest first.\<close>

definition newestTurns :: "nat \<Rightarrow> HistoryMessage list \<Rightarrow> HistoryMessage list" where
  "newestTurns k history = drop (length (butlast history) - k) (butlast history)"

text \<open>
  A sequence in the assembler's final order: system prompt, few-shots, the messages of
  some turns, trailing user content.
\<close>

definition assembled ::
  "string \<Rightarrow> Message list \<Rightarrow> HistoryMessage list \<Rightarrow> string \<Rightarrow> Message list" where
  "assembled systemPrompt fewShots turns userContent =
     \<lparr>role = System, content = systemPrompt\<rparr> # fewShots @ concat (map turnMessages turns) @
     [\<lparr>role = User, content = userContent\<rparr>]"

text \<open>The cumulative token cost once the \<open>i\<close> newest turns are inserted.\<close>

definition costAfter ::
  "TokenMeter \<Rightarrow> string \<Rightarrow> string \<Rightarrow> HistoryMessage list \<Rightarrow> string \<Rightarrow> Message list \<Rightarrow> nat \<Rightarrow> int" where
  "costAfter meter systemPrompt mdl history userContent fewShots i =
     sum_list (map (meter mdl) (assembled systemPrompt fewShots (newestTurns i history) userContent))"

section \<open>JavaScript string operations used by the pipeline\<close>

text \<open>
  Characters are the code units of the range 0 to 255. \<^verbatim>\<open>String.prototype.trim\<close> removes
  white space and line terminators from both ends; in this range these are the code
  units 9 to 13, 32 and 160.
\<close>

definition isWhiteSpace :: "char \<Rightarrow> bool" where
  "isWhiteSpace c =
     (c = CHR 0x09 \<or> c = CHR 0x0A \<or> c = CHR 0x0B \<or> c = CHR 0x0C \<or> c = CHR 0x0D \<or>
      c = CHR 0x20 \<or> c = CHR 0xA0)"

definition trim :: "string \<Rightarrow> string" where
  "trim s = rev (dropWhile isWhiteSpace (rev (dropWhile isWhiteSpace s)))"

definition startsWith :: "string \<Rightarrow> string \<Rightarrow> bool" where
  "startsWith s searchString = (take (length searchString) s = searchString)"

text \<open>\<^verbatim>\<open>String.prototype.indexOf\<close>: the position of the first occurrence, if there is one.\<close>

fun indexOf :: "string \<Rightarrow> string \<Rightarrow> nat option" where
  "indexOf [] searchString = (if searchString = [] then Some 0 else None)"
| "indexOf (c # cs) searchString =
     (if startsWith (c # cs) searchString then Some 0
      else map_option Suc (indexOf cs searchString))"

text \<open>
  The replacement text of \<^verbatim>\<open>String.prototype.replace\<close> with a string pattern is expanded
  by ECMAScript's GetSubstitution: \<^verbatim>\<open>$$\<close> stands for a dollar sign, \<^verbatim>\<open>$&\<close> for the matched
  text, a dollar sign and a backquote for the text before the match, a dollar sign and an
  apostrophe for the text after it. There are no capture groups, so any other dollar
  sign stands for itself.
\<close>

fun getSubstitution :: "string \<Rightarrow> string \<Rightarrow> nat \<Rightarrow> string \<Rightarrow> string" where
  "getSubstitution matched str position [] = []"
| "getSubstitution matched str position [c] = [c]"
| "getSubstitution matched str position (c # d # r) =
     (if c = CHR ''$'' \<and> d = CHR ''$'' then
        CHR ''$'' # getSubstitution matched str position r
      else if c = CHR ''$'' \<and> d = CHR ''&'' then
        matched @ getSubstitution matched str position r
      else if c = CHR ''$'' \<and> d = CHR 0x60 then
        take position str @ getSubstitution matched str position r
      else if c = CHR ''$'' \<and> d = CHR 0x27 then
        drop (position + length matched) str @ getSubstitution matched str position r
      else c # getSubstitution matched str position (d # r))"

text \<open>\<^verbatim>\<open>str.replace(searchValue, replaceValue)\<close> with two strings: the first occurrence only.\<close>

definition replace :: "string \<Rightarrow> string \<Rightarrow> string \<Rightarrow> string" where
  "replace str searchValue replaceValue =
     (case indexOf str searchValue of
        None \<Rightarrow> str
      | Some position \<Rightarrow>
          take position str @ getSubstitution searchValue str position replaceValue @
          drop (position + length searchValue) str)"

section \<open>The pipeline\<close>

definition SYSTEM_MESSAGE_CHAT_CONVERSATION :: string where
  "SYSTEM_MESSAGE_CHAT_CONVERSATION = ''Assistant helps the Consto Real Estate company customers with support questions regarding terms of service, privacy policy, and questions about support requests. Be brief in your answers.\<newline>Answer ONLY with the facts listed in the list of sources below. If there isn't enough information below, say you don't know. Do not generate answers that don't use the sources below. If asking a clarifying question to the user would help, ask the question.\<newline>For tabular information return it as an html table. Do not return markdown format. If the question is not in English, answer in the language used in the question.\<newline>Each source has a name followed by colon and the actual information, always include the source name for each fact you use in the response. Use square brackets to reference the source, e.g. [info1.txt]. Don't combine sources, list each source separately, e.g. [info1.txt][info2.pdf].\<newline>{follow_up_questions_prompt}\<newline>{injected_prompt}\<newline>''"

definition FOLLOW_UP_QUESTIONS_PROMPT_CONTENT :: string where
  "FOLLOW_UP_QUESTIONS_PROMPT_CONTENT = ''Generate three very brief follow-up questions that the user would likely ask next about rentals.\<newline>Use double angle brackets to reference the questions, e.g. <<Am I allowed to invite friends for a party?>>.\<newline>Try not to repeat questions that have already been asked.\<newline>Only generate questions and do not generate any text before or after the questions, such as 'Next Questions'' @ [CHR 0x27]"

datatype error = TypeError | ServiceError string

record ChatApproachContext =
  suggest_followup_questions :: "bool option"
  prompt_template :: "string option"
  temperature :: "real option"

record CompletionRequest =
  request_model :: string
  request_messages :: "Message list"
  request_temperature :: real
  max_tokens :: nat
  request_n :: nat

text \<open>A completion: each choice is read through \<^verbatim>\<open>message.content\<close> only.\<close>

record Choice =
  message_content :: "string option"

record ChatCompletion =
  choices :: "Choice list"

text \<open>A chunk of a streamed completion: each choice is read through \<^verbatim>\<open>delta.content\<close>.\<close>

record ChunkChoice =
  delta_content :: "string option"

record ChatCompletionChunk =
  chunk_choices :: "ChunkChoice list"

text \<open>What \<^verbatim>\<open>searchDocuments\<close> (of the base class, an external collaborator here) returns.\<close>

record SearchDocuments =
  found_query :: string
  found_results :: "string list"
  found_content :: string

text \<open>
  The approach object: its two fields and its collaborators. The completion service, the
  streamed completion service, the search and \<^verbatim>\<open>messagesToString\<close> are parameters; a
  service call either fails or returns.
\<close>

record ChatReadRetrieveRead =
  chatGptModel :: string
  chatGptTokenLimit :: int
  tokenMeter :: TokenMeter
  createCompletion :: "CompletionRequest \<Rightarrow> error + ChatCompletion"
  createCompletionStream :: "CompletionRequest \<Rightarrow> error + ChatCompletionChunk list"
  searchDocuments :: "string option \<Rightarrow> ChatApproachContext option \<Rightarrow> error + SearchDocuments"
  messagesToString :: "Message list \<Rightarrow> string"

record BaseRun =
  completionRequest :: CompletionRequest
  dataPoints :: "string list"
  baseThoughts :: string

record ApproachResponse =
  response_data_points :: "string list"
  response_answer :: string
  response_thoughts :: string

record ApproachResponseChunk =
  data_points :: "string list option"
  thoughts :: "string option"
  answer :: string

text \<open>\<^verbatim>\<open>xs[0].f\<close> and \<^verbatim>\<open>history[history.length - 1].user\<close>: reading a field of an element
  that is not there throws a TypeError.\<close>

definition firstElement :: "'a list \<Rightarrow> error + 'a" where
  "firstElement xs = (case xs of [] \<Rightarrow> Inl TypeError | x # _ \<Rightarrow> Inr x)"

definition lastElement :: "'a list \<Rightarrow> error + 'a" where
  "lastElement xs = (if xs = [] then Inl TypeError else Inr (last xs))"

text \<open>The \<^verbatim>\<open>??\<close> operator on an optional string.\<close>

fun orEmpty :: "string option \<Rightarrow> string" where
  "orEmpty None = []"
| "orEmpty (Some s) = s"

subsection \<open>Step 1: the query-rewrite stage\<close>

definition userQuery :: "HistoryMessage \<Rightarrow> string" where
  "userQuery lastTurn = ''Generate search query for: '' @ toStr (user lastTurn)"

text \<open>The request of the query-rewrite completion, and the few-shot array after the call.\<close>

definition queryRequest ::
  "ChatReadRetrieveRead \<Rightarrow> Message list \<Rightarrow> HistoryMessage list \<Rightarrow> HistoryMessage
     \<Rightarrow> CompletionRequest \<times> Message list" where
  "queryRequest this shots history lastTurn =
     (let (msgs, shots') =
            getMessagesFromHistory (tokenMeter this) QUERY_PROMPT_TEMPLATE (chatGptModel this)
              history (userQuery lastTurn) shots
              (chatGptTokenLimit this - int (length (userQuery lastTurn)))
      in (\<lparr>request_model = chatGptModel this, request_messages = msgs,
           request_temperature = 0, max_tokens = 32, request_n = 1\<rparr>, shots'))"

text \<open>
  The query handed to the search: the trimmed completion text, unless that is exactly
  \<^verbatim>\<open>'0'\<close>, when it is the user text of the last turn.
\<close>

definition queryText :: "string option \<Rightarrow> HistoryMessage \<Rightarrow> string option" where
  "queryText completionContent lastTurn =
     (let trimmed = map_option trim completionContent
      in if trimmed = Some ''0'' then user lastTurn else trimmed)"

subsection \<open>Step 3: the synthesis stage\<close>

definition followUpQuestionsPrompt :: "ChatApproachContext option \<Rightarrow> string" where
  "followUpQuestionsPrompt ctx =
     (case ctx of
        None \<Rightarrow> []
      | Some c \<Rightarrow>
          (case suggest_followup_questions c of
             Some True \<Rightarrow> FOLLOW_UP_QUESTIONS_PROMPT_CONTENT
           | _ \<Rightarrow> []))"

definition promptOverride :: "ChatApproachContext option \<Rightarrow> string option" where
  "promptOverride ctx = (case ctx of None \<Rightarrow> None | Some c \<Rightarrow> prompt_template c)"

definition systemMessage :: "ChatApproachContext option \<Rightarrow> string" where
  "systemMessage ctx =
     (let base = replace SYSTEM_MESSAGE_CHAT_CONVERSATION ''{follow_up_questions_prompt}''
                   (followUpQuestionsPrompt ctx)
      in case promptOverride ctx of
           Some p \<Rightarrow>
             if startsWith p ''>>>'' then replace base ''{injected_prompt}'' (drop 3 p @ ''\<newline>'')
             else if p \<noteq> [] then replace base ''{injected_prompt}'' p
             else replace base ''{injected_prompt}'' []
         | None \<Rightarrow> replace base ''{injected_prompt}'' [])"

definition requestTemperature :: "ChatApproachContext option \<Rightarrow> real" where
  "requestTemperature ctx =
     (case ctx of
        None \<Rightarrow> 7 / 10
      | Some c \<Rightarrow> (case temperature c of None \<Rightarrow> 7 / 10 | Some t \<Rightarrow> t))"

definition answerRequest ::
  "ChatReadRetrieveRead \<Rightarrow> HistoryMessage list \<Rightarrow> HistoryMessage \<Rightarrow> ChatApproachContext option
     \<Rightarrow> Message list \<Rightarrow> SearchDocuments \<Rightarrow> BaseRun" where
  "answerRequest this history lastTurn ctx msgs found =
     (let finalMessages =
            fst (getMessagesFromHistory (tokenMeter this) (systemMessage ctx) (chatGptModel this)
                   history
                   (toStr (user lastTurn) @ ''\<newline>\<newline>Sources:\<newline>'' @ found_content found)
                   [] (chatGptTokenLimit this));
          messageToDisplay = messagesToString this msgs
      in \<lparr>completionRequest =
            \<lparr>request_model = chatGptModel this, request_messages = finalMessages,
             request_temperature = requestTemperature ctx, max_tokens = 1024, request_n = 1\<rparr>,
          dataPoints = found_results found,
          baseThoughts =
            ''Searched for:<br>'' @ found_query found @ ''<br><br>Conversations:<br>'' @
            replace messageToDisplay ''\<newline>'' ''<br>''\<rparr>)"

subsection \<open>The three steps in sequence\<close>

text \<open>
  \<open>shots\<close> is the content of the module-level array \<^verbatim>\<open>QUERY_PROMPT_FEW_SHOTS\<close> when the call
  starts; the second component of the result is its content when the call ends.
\<close>

definition baseRun ::
  "ChatReadRetrieveRead \<Rightarrow> Message list \<Rightarrow> HistoryMessage list \<Rightarrow> ChatApproachContext option
     \<Rightarrow> (error + BaseRun) \<times> Message list" where
  "baseRun this shots history ctx =
     (case lastElement history of
        Inl e \<Rightarrow> (Inl e, shots)
      | Inr lastTurn \<Rightarrow>
          (let (request, shots') = queryRequest this shots history lastTurn
           in case createCompletion this request of
                Inl e \<Rightarrow> (Inl e, shots')
              | Inr chatCompletion \<Rightarrow>
                  (case firstElement (choices chatCompletion) of
                     Inl e \<Rightarrow> (Inl e, shots')
                   | Inr choice \<Rightarrow>
                       (case searchDocuments this (queryText (message_content choice) lastTurn) ctx of
                          Inl e \<Rightarrow> (Inl e, shots')
                        | Inr found \<Rightarrow>
                            (Inr (answerRequest this history lastTurn ctx
                                    (request_messages request) found), shots')))))"

definition run ::
  "ChatReadRetrieveRead \<Rightarrow> Message list \<Rightarrow> HistoryMessage list \<Rightarrow> ChatApproachContext option
     \<Rightarrow> (error + ApproachResponse) \<times> Message list" where
  "run this shots history ctx =
     (case baseRun this shots history ctx of
        (Inl e, shots') \<Rightarrow> (Inl e, shots')
      | (Inr b, shots') \<Rightarrow>
          (case createCompletion this (completionRequest b) of
             Inl e \<Rightarrow> (Inl e, shots')
           | Inr chatCompletion \<Rightarrow>
               (case firstElement (choices chatCompletion) of
                  Inl e \<Rightarrow> (Inl e, shots')
                | Inr choice \<Rightarrow>
                    (Inr \<lparr>response_data_points = dataPoints b,
                          response_answer = orEmpty (message_content choice),
                          response_thoughts = baseThoughts b\<rparr>, shots'))))"

text \<open>
  The generator's loop over the streamed completion: the chunks it yields, in order, and
  the error that ended it, if one did. \<open>chunkId\<close> is the counter \<^verbatim>\<open>id\<close>.
\<close>

fun yieldChunks ::
  "string list \<Rightarrow> string \<Rightarrow> nat \<Rightarrow> ChatCompletionChunk list
     \<Rightarrow> ApproachResponseChunk list \<times> error option" where
  "yieldChunks dps th chunkId [] = ([], None)"
| "yieldChunks dps th chunkId (chunk # rest) =
     (case firstElement (chunk_choices chunk) of
        Inl e \<Rightarrow> ([], Some e)
      | Inr choice \<Rightarrow>
          (let responseChunk =
                 \<lparr>data_points = (if chunkId = 0 then Some dps else None),
                  thoughts = (if chunkId = 0 then Some th else None),
                  answer = orEmpty (delta_content choice)\<rparr>;
               (yielded, err) = yieldChunks dps th (chunkId + 1) rest
           in (responseChunk # yielded, err)))"

definition runWithStreaming ::
  "ChatReadRetrieveRead \<Rightarrow> Message list \<Rightarrow> HistoryMessage list \<Rightarrow> ChatApproachContext option
     \<Rightarrow> (ApproachResponseChunk list \<times> error option) \<times> Message list" where
  "runWithStreaming this shots history ctx =
     (case baseRun this shots history ctx of
        (Inl e, shots') \<Rightarrow> (([], Some e), shots')
      | (Inr b, shots') \<Rightarrow>
          (case createCompletionStream this (completionRequest b) of
             Inl e \<Rightarrow> (([], Some e), shots')
           | Inr chatCompletion \<Rightarrow>
               (yieldChunks (dataPoints b) (baseThoughts b) 0 chatCompletion, shots')))"

subsection \<open>The resolved system prompt, as the specification words it\<close>

text \<open>The base template up to its two placeholders.\<close>

definition systemInstructions :: string where
  "systemInstructions = ''Assistant helps the Consto Real Estate company customers with support questions regarding terms of service, privacy policy, and questions about support requests. Be brief in your answers.\<newline>Answer ONLY with the facts listed in the list of sources below. If there isn't enough information below, say you don't know. Do not generate answers that don't use the sources below. If asking a clarifying question to the user would help, ask the question.\<newline>For tabular information return it as an html table. Do not return markdown format. If the question is not in English, answer in the language used in the question.\<newline>Each source has a name followed by colon and the actual information, always include the source name for each fact you use in the response. Use square brackets to reference the source, e.g. [info1.txt]. Don't combine sources, list each source separately, e.g. [info1.txt][info2.pdf].\<newline>''"

text \<open>
  The base template with the follow-up placeholder replaced by exactly \<open>followUp\<close> and the
  injected-prompt placeholder replaced by exactly \<open>injected\<close>.
\<close>

definition resolvedSystemPrompt :: "string \<Rightarrow> string \<Rightarrow> string" where
  "resolvedSystemPrompt followUp injected =
     systemInstructions @ followUp @ ''\<newline>'' @ injected @ ''\<newline>''"

text \<open>
  The text the specification puts in place of the injected-prompt placeholder: the
  remainder of a \<^verbatim>\<open>>>>\<close> override followed by a newline, any other override verbatim,
  nothing without an override.
\<close>

definition injectedPromptBySpec :: "string option \<Rightarrow> string" where
  "injectedPromptBySpec override =
     (case override of
        None \<Rightarrow> []
      | Some p \<Rightarrow> if startsWith p ''>>>'' then drop 3 p @ ''\<newline>'' else p)"

subsection \<open>The text of a streamed chunk\<close>

text \<open>What the loop reads from a chunk that has a first choice: \<^verbatim>\<open>delta.content ?? ''\<close>.\<close>

definition deltaText :: "ChatCompletionChunk \<Rightarrow> string" where
  "deltaText chunk =
     (case chunk_choices chunk of [] \<Rightarrow> [] | choice # _ \<Rightarrow> orEmpty (delta_content choice))"

subsection \<open>Example inputs\<close>

text \<open>A meter that charges two tokens for a message and one for each character of its content.\<close>

definition lengthMeter :: TokenMeter where
  "lengthMeter mdl m = 2 + int (length (content m))"

definition exampleHistory :: "HistoryMessage list" where
  "exampleHistory =
     [\<lparr>user = Some ''q1'', bot = Some ''a1''\<rparr>,
      \<lparr>user = Some ''q2'', bot = None\<rparr>,
      \<lparr>user = None, bot = Some ''a3''\<rparr>,
      \<lparr>user = Some ''q4'', bot = Some ''a4''\<rparr>]"

definition exampleShots :: "Message list" where
  "exampleShots = [\<lparr>role = User, content = ''f1''\<rparr>, \<lparr>role = Assistant, content = ''f2''\<rparr>]"


text \<open>
  An approach whose completion service always answers \<open>reply\<close>, whose streamed completion
  arrives in three chunks, and whose search returns the query it was given as its only
  result.
\<close>

definition exampleApproach :: "string option \<Rightarrow> ChatReadRetrieveRead" where
  "exampleApproach reply =
     \<lparr>chatGptModel = ''gpt-35-turbo'',
      chatGptTokenLimit = 4000,
      tokenMeter = lengthMeter,
      createCompletion = (\<lambda>request. Inr \<lparr>choices = [\<lparr>message_content = reply\<rparr>]\<rparr>),
      createCompletionStream =
        (\<lambda>request. Inr [\<lparr>chunk_choices = [\<lparr>delta_content = Some ''Hel''\<rparr>]\<rparr>,
                        \<lparr>chunk_choices = [\<lparr>delta_content = Some ''lo''\<rparr>]\<rparr>,
                        \<lparr>chunk_choices = [\<lparr>delta_content = Some '' there''\<rparr>]\<rparr>]),
      searchDocuments =
        (\<lambda>query ctx. Inr \<lparr>found_query = orEmpty query, found_results = [toStr query],
                           found_content = ''info1.txt: text''\<rparr>),
      messagesToString = (\<lambda>ms. concat (map content ms))\<rparr>"

definition paymentHistory :: "HistoryMessage list" where
  "paymentHistory = [\<lparr>user = Some ''What happens if a payment error occurs?'', bot = None\<rparr>]"

section \<open>Properties of the message builder and of the history walk\<close>

lemma Message_eta: "\<lparr>role = role m, content = content m\<rparr> = (m::Message)"
  by (cases m) simp

lemma splice_take: "index \<le> length xs \<Longrightarrow> take index (splice index x xs) = take index xs"
  by (simp add: splice_def)

lemma splice_drop: "index \<le> length xs \<Longrightarrow> drop index (splice index x xs) = x # drop index xs"
  by (simp add: splice_def)

lemma splice_length: "length (splice index x xs) = Suc (length xs)"
  by (simp add: splice_def)

lemma splice_one: "splice 1 x (m # rest) = m # x # rest"
  by (simp add: splice_def)

lemma splice_end: "splice (length xs) x xs = xs @ [x]"
  by (simp add: splice_def)

lemma appendMessage_messages:
  "messages (appendMessage meter r c index mb) = splice index \<lparr>role = r, content = c\<rparr> (messages mb)"
  by (simp add: appendMessage_def)

lemma appendMessage_tokens:
  "tokens (appendMessage meter r c index mb) = tokens mb + meter (model mb) \<lparr>role = r, content = c\<rparr>"
  by (simp add: appendMessage_def)

lemma appendMessage_model: "model (appendMessage meter r c index mb) = model mb"
  by (simp add: appendMessage_def)

lemma fold_shots_messages:
  "messages mb = m # rest \<Longrightarrow>
   messages (fold (\<lambda>shot. appendMessage meter (role shot) (content shot) (Suc 0)) xs mb) = m # rev xs @ rest"
proof (induction xs arbitrary: mb rest)
  case Nil
  then show ?case by simp
next
  case (Cons x xs)
  have "messages (appendMessage meter (role x) (content x) (Suc 0) mb) = m # x # rest"
    using Cons.prems by (simp add: appendMessage_messages splice_def Message_eta)
  from Cons.IH [OF this] show ?case by simp
qed

lemma fold_shots_model:
  "model (fold (\<lambda>shot. appendMessage meter (role shot) (content shot) (Suc 0)) xs mb) = model mb"
  by (induction xs arbitrary: mb) (simp_all add: appendMessage_model)

lemma fold_shots_tokens:
  "tokens (fold (\<lambda>shot. appendMessage meter (role shot) (content shot) (Suc 0)) xs mb) =
   tokens mb + sum_list (map (meter (model mb)) xs)"
  by (induction xs arbitrary: mb) (simp_all add: appendMessage_model appendMessage_tokens Message_eta)

lemma appendTurn_messages:
  assumes "index \<le> length (messages mb)"
  shows "messages (appendTurn meter index h mb) =
         take index (messages mb) @ turnMessages h @ drop index (messages mb)"
proof (cases "bot h")
  case None
  then show ?thesis
    by (cases "user h") (simp_all add: appendTurn_def turnMessages_def appendMessage_messages splice_def)
next
  case (Some b)
  then show ?thesis using assms
    by (cases "user h") (simp_all add: appendTurn_def turnMessages_def appendMessage_messages splice_def)
qed

lemma appendTurn_model: "model (appendTurn meter index h mb) = model mb"
  by (simp add: appendTurn_def appendMessage_model split: option.splits)

lemma appendTurn_tokens:
  "tokens (appendTurn meter index h mb) = tokens mb + sum_list (map (meter (model mb)) (turnMessages h))"
  by (cases "bot h"; cases "user h")
     (simp_all add: appendTurn_def turnMessages_def appendMessage_tokens appendMessage_model)

lemma appendTurn_length:
  "length (messages mb) \<le> length (messages (appendTurn meter index h mb))"
  by (simp add: appendTurn_def appendMessage_messages splice_length split: option.splits)

lemma walkHistory_messages:
  "index \<le> length (messages mb) \<Longrightarrow>
   messages (walkHistory meter maxTokens index hs mb) =
   take index (messages mb) @
   concat (map turnMessages (rev (take (turnsWalked meter maxTokens index hs mb) hs))) @
   drop index (messages mb)"
proof (induction hs arbitrary: mb)
  case Nil
  then show ?case by simp
next
  case (Cons h hs)
  let ?mb = "appendTurn meter index h mb"
  have msgs: "messages ?mb = take index (messages mb) @ turnMessages h @ drop index (messages mb)"
    using Cons.prems by (rule appendTurn_messages)
  show ?case
  proof (cases "tokens ?mb > maxTokens")
    case True
    then show ?thesis using msgs by simp
  next
    case False
    have le: "index \<le> length (messages ?mb)"
      using Cons.prems appendTurn_length [of mb meter index h] by linarith
    have tk: "take index (messages ?mb) = take index (messages mb)"
      using Cons.prems by (simp add: msgs)
    have dr: "drop index (messages ?mb) = turnMessages h @ drop index (messages mb)"
      using Cons.prems by (simp add: msgs)
    show ?thesis using False Cons.IH [OF le] by (simp add: tk dr)
  qed
qed

lemma turnsWalked_le: "turnsWalked meter maxTokens index hs mb \<le> length hs"
  by (induction hs arbitrary: mb) (simp_all add: Let_def)

lemma turnsWalked_mono:
  "m1 \<le> m2 \<Longrightarrow> turnsWalked meter m1 index hs mb \<le> turnsWalked meter m2 index hs mb"
  by (induction hs arbitrary: mb) (simp_all add: Let_def)

lemma turnsWalked_pos: "hs \<noteq> [] \<Longrightarrow> 0 < turnsWalked meter maxTokens index hs mb"
  by (cases hs) (simp_all add: Let_def)


lemma fold_appendTurn_tokens:
  "tokens (fold (appendTurn meter index) ts mb) =
   tokens mb + sum_list (map (meter (model mb)) (concat (map turnMessages ts)))"
  by (induction ts arbitrary: mb) (simp_all add: appendTurn_tokens appendTurn_model)

lemma turnsWalked_iff:
  "j < length hs \<Longrightarrow>
   (j < turnsWalked meter maxTokens index hs mb) =
   (\<forall>i. 0 < i \<and> i \<le> j \<longrightarrow> tokens (fold (appendTurn meter index) (take i hs) mb) \<le> maxTokens)"
proof (induction hs arbitrary: mb j)
  case Nil
  then show ?case by simp
next
  case (Cons h hs)
  let ?mb = "appendTurn meter index h mb"
  show ?case
  proof (cases j)
    case 0
    then show ?thesis by (simp add: Let_def)
  next
    case (Suc j')
    have one: "tokens (fold (appendTurn meter index) (take 1 (h # hs)) mb) = tokens ?mb"
      by simp
    show ?thesis
    proof (cases "tokens ?mb > maxTokens")
      case True
      have "\<not> (\<forall>i. 0 < i \<and> i \<le> j \<longrightarrow>
              tokens (fold (appendTurn meter index) (take i (h # hs)) mb) \<le> maxTokens)"
      proof
        assume a: "\<forall>i. 0 < i \<and> i \<le> j \<longrightarrow>
              tokens (fold (appendTurn meter index) (take i (h # hs)) mb) \<le> maxTokens"
        have "0 < (1::nat) \<and> 1 \<le> j" using Suc by simp
        with a have "tokens (fold (appendTurn meter index) (take 1 (h # hs)) mb) \<le> maxTokens"
          by blast
        with True one show False by simp
      qed
      then show ?thesis using True Suc by (simp add: Let_def)
    next
      case False
      have j': "j' < length hs" using Cons.prems Suc by simp
      have lhs: "(j < turnsWalked meter maxTokens index (h # hs) mb) =
                 (j' < turnsWalked meter maxTokens index hs ?mb)"
        using False Suc by (simp add: Let_def)
      have rhs: "(\<forall>i. 0 < i \<and> i \<le> j \<longrightarrow>
                    tokens (fold (appendTurn meter index) (take i (h # hs)) mb) \<le> maxTokens) =
                 (\<forall>i. 0 < i \<and> i \<le> j' \<longrightarrow>
                    tokens (fold (appendTurn meter index) (take i hs) ?mb) \<le> maxTokens)"
      proof
        assume a: "\<forall>i. 0 < i \<and> i \<le> j \<longrightarrow>
                    tokens (fold (appendTurn meter index) (take i (h # hs)) mb) \<le> maxTokens"
        show "\<forall>i. 0 < i \<and> i \<le> j' \<longrightarrow>
                    tokens (fold (appendTurn meter index) (take i hs) ?mb) \<le> maxTokens"
        proof (intro allI impI)
          fix i assume "0 < i \<and> i \<le> j'"
          then have "0 < Suc i \<and> Suc i \<le> j" using Suc by simp
          with a have "tokens (fold (appendTurn meter index) (take (Suc i) (h # hs)) mb) \<le> maxTokens"
            by blast
          then show "tokens (fold (appendTurn meter index) (take i hs) ?mb) \<le> maxTokens" by simp
        qed
      next
        assume a: "\<forall>i. 0 < i \<and> i \<le> j' \<longrightarrow>
                    tokens (fold (appendTurn meter index) (take i hs) ?mb) \<le> maxTokens"
        show "\<forall>i. 0 < i \<and> i \<le> j \<longrightarrow>
                    tokens (fold (appendTurn meter index) (take i (h # hs)) mb) \<le> maxTokens"
        proof (intro allI impI)
          fix i assume i: "0 < i \<and> i \<le> j"
          then obtain i' where i': "i = Suc i'" by (cases i) auto
          show "tokens (fold (appendTurn meter index) (take i (h # hs)) mb) \<le> maxTokens"
          proof (cases i')
            case 0
            then show ?thesis using False i' by simp
          next
            case (Suc i'')
            then have "0 < i' \<and> i' \<le> j'" using i i' \<open>j = Suc j'\<close> by simp
            with a have "tokens (fold (appendTurn meter index) (take i' hs) ?mb) \<le> maxTokens"
              by blast
            then show ?thesis using i' by simp
          qed
        qed
      qed
      show ?thesis using lhs rhs Cons.IH [OF j', of ?mb] by simp
    qed
  qed
qed

lemma newMessageBuilder_simps:
  "messages (newMessageBuilder meter s mdl) = [\<lparr>role = System, content = s\<rparr>]"
  "model (newMessageBuilder meter s mdl) = mdl"
  "tokens (newMessageBuilder meter s mdl) = meter mdl \<lparr>role = System, content = s\<rparr>"
  by (simp_all add: newMessageBuilder_def)

lemma beforeHistory_messages:
  "messages (beforeHistory meter s mdl uc fs) =
   \<lparr>role = System, content = s\<rparr> # fs @ [\<lparr>role = User, content = uc\<rparr>]"
proof -
  let ?mb = "fold (\<lambda>shot. appendMessage meter (role shot) (content shot) (Suc 0)) (rev fs)
               (newMessageBuilder meter s mdl)"
  have m: "messages ?mb = \<lparr>role = System, content = s\<rparr> # fs"
    using fold_shots_messages [of "newMessageBuilder meter s mdl" _ "[]" meter "rev fs"]
    by (simp add: newMessageBuilder_simps)
  have "length (messages ?mb) = length (rev fs) + 1" by (simp add: m)
  then have "splice (length (rev fs) + 1) x (messages ?mb) = messages ?mb @ [x]" for x
    using splice_end [of "messages ?mb" x] by simp
  then show ?thesis
    by (simp add: beforeHistory_def appendMessage_messages m)
qed

lemma beforeHistory_model: "model (beforeHistory meter s mdl uc fs) = mdl"
  by (simp add: beforeHistory_def appendMessage_model fold_shots_model newMessageBuilder_simps)

lemma beforeHistory_tokens:
  "tokens (beforeHistory meter s mdl uc fs) =
   sum_list (map (meter mdl) (\<lparr>role = System, content = s\<rparr> # fs @ [\<lparr>role = User, content = uc\<rparr>]))"
proof -
  have "sum_list (map (meter mdl) (rev fs)) = sum_list (map (meter mdl) fs)"
    by (simp add: rev_map [symmetric])
  then show ?thesis
    by (simp add: beforeHistory_def appendMessage_tokens appendMessage_model fold_shots_model
        fold_shots_tokens newMessageBuilder_simps)
qed

lemma getMessagesFromHistory_snd:
  "snd (getMessagesFromHistory meter s mdl history uc fs maxTokens) = rev fs"
  by (simp add: getMessagesFromHistory_def Let_def)

lemma rev_take_rev: "rev (take k (rev xs)) = drop (length xs - k) xs"
  by (simp add: take_rev)

lemma getMessagesFromHistory_fst:
  "fst (getMessagesFromHistory meter s mdl history uc fs maxTokens) =
   assembled s fs
     (newestTurns (includedTurns meter s mdl history uc fs maxTokens) history) uc"
proof -
  let ?mb = "beforeHistory meter s mdl uc fs"
  have le: "length fs + 1 \<le> length (messages ?mb)"
    by (simp add: beforeHistory_messages)
  have tk: "take (length fs + 1) (messages ?mb) = \<lparr>role = System, content = s\<rparr> # fs"
    by (simp add: beforeHistory_messages)
  have dr: "drop (length fs + 1) (messages ?mb) = [\<lparr>role = User, content = uc\<rparr>]"
    by (simp add: beforeHistory_messages)
  have "fst (getMessagesFromHistory meter s mdl history uc fs maxTokens) =
        messages (walkHistory meter maxTokens (length fs + 1) (rev (butlast history)) ?mb)"
    by (simp add: getMessagesFromHistory_def Let_def beforeHistory_def Message_eta)
  also have "\<dots> = take (length fs + 1) (messages ?mb) @
      concat (map turnMessages (rev (take (turnsWalked meter maxTokens (length fs + 1)
         (rev (butlast history)) ?mb) (rev (butlast history))))) @
      drop (length fs + 1) (messages ?mb)"
    by (rule walkHistory_messages [OF le])
  finally show ?thesis
    using tk dr by (simp add: assembled_def newestTurns_def includedTurns_def take_rev)
qed



lemma sum_concat_rev:
  "sum_list (map f (concat (map g (rev xs)))) = (sum_list (map f (concat (map g xs))) :: int)"
  by (induction xs) simp_all

lemma tokens_costAfter:
  "tokens (fold (appendTurn meter (length fs + 1)) (take i (rev (butlast history)))
             (beforeHistory meter s mdl uc fs)) =
   costAfter meter s mdl history uc fs i"
proof -
  have "take i (rev (butlast history)) = rev (newestTurns i history)"
    by (simp add: newestTurns_def take_rev)
  then show ?thesis
    by (simp add: fold_appendTurn_tokens beforeHistory_model beforeHistory_tokens costAfter_def
        assembled_def sum_concat_rev)
qed

lemma turnsWalked_stop:
  "turnsWalked meter maxTokens index hs mb < length hs \<Longrightarrow>
   maxTokens <
   tokens (fold (appendTurn meter index) (take (turnsWalked meter maxTokens index hs mb) hs) mb)"
proof (induction hs arbitrary: mb)
  case Nil
  then show ?case by simp
next
  case (Cons h hs)
  show ?case
  proof (cases "tokens (appendTurn meter index h mb) > maxTokens")
    case True
    then show ?thesis by simp
  next
    case False
    with Cons.prems have "turnsWalked meter maxTokens index hs (appendTurn meter index h mb) < length hs"
      by (simp add: Let_def)
    from Cons.IH [OF this] show ?thesis using False by (simp add: Let_def)
  qed
qed

lemma drop_split:
  assumes "b \<le> (a::nat)"
  shows "drop b xs = take (a - b) (drop b xs) @ drop a xs"
proof -
  have "drop (a - b) (drop b xs) = drop a xs" using assms by simp
  then have "take (a - b) (drop b xs) @ drop a xs =
             take (a - b) (drop b xs) @ drop (a - b) (drop b xs)"
    by (rule arg_cong [OF sym])
  then show ?thesis by (simp only: append_take_drop_id)
qed

lemma newestTurns_older:
  assumes "k1 \<le> k2"
  shows "\<exists>older. newestTurns k2 history = older @ newestTurns k1 history"
proof -
  have "length (butlast history) - k2 \<le> length (butlast history) - k1"
    using assms by simp
  from drop_split [OF this] show ?thesis
    unfolding newestTurns_def by blast
qed

section \<open>Claims about the conversation assembler\<close>

text \<open>
  Claim C1. For every history and every budget, the sequence that
  \<open>getMessagesFromHistory\<close> returns has the system prompt at position 0 and the trailing
  user content as its last element; it has at least these two elements.
\<close>

theorem system_prompt_first_user_content_last:
  "fst (getMessagesFromHistory meter s mdl history uc fs maxTokens) ! 0 =
     \<lparr>role = System, content = s\<rparr> \<and>
   last (fst (getMessagesFromHistory meter s mdl history uc fs maxTokens)) =
     \<lparr>role = User, content = uc\<rparr> \<and>
   2 \<le> length (fst (getMessagesFromHistory meter s mdl history uc fs maxTokens))"
  by (simp add: getMessagesFromHistory_fst assembled_def)

text \<open>
  Claim C2. The walk goes newest-first over all turns but the last, and the budget is
  checked after a turn is inserted. The call always returns a sequence (there is no
  error result): the system prompt, the few-shots, the \<open>k\<close> newest turns and the trailing
  user content, where \<open>k\<close> is \<open>includedTurns\<close>. The turn at position \<open>j\<close> of the walk is
  inserted exactly when none of the checks after the turns before it found the cost
  above the budget, so the turn whose insertion takes the cost above the budget is in
  the output; and when the walk stops before the oldest turn, the cost of what it
  returns is above the budget.
\<close>

theorem overflowing_turn_is_included:
  "fst (getMessagesFromHistory meter s mdl history uc fs maxTokens) =
     assembled s fs (newestTurns (includedTurns meter s mdl history uc fs maxTokens) history) uc \<and>
   (\<forall>j < length (butlast history).
      (j < includedTurns meter s mdl history uc fs maxTokens) =
      (\<forall>i. 0 < i \<and> i \<le> j \<longrightarrow> costAfter meter s mdl history uc fs i \<le> maxTokens)) \<and>
   (includedTurns meter s mdl history uc fs maxTokens < length (butlast history) \<longrightarrow>
      maxTokens <
      costAfter meter s mdl history uc fs (includedTurns meter s mdl history uc fs maxTokens))"
proof (intro conjI allI impI)
  show "fst (getMessagesFromHistory meter s mdl history uc fs maxTokens) =
     assembled s fs (newestTurns (includedTurns meter s mdl history uc fs maxTokens) history) uc"
    by (rule getMessagesFromHistory_fst)
next
  fix j assume "j < length (butlast history)"
  then have "j < length (rev (butlast history))" by simp
  from turnsWalked_iff [OF this, of meter maxTokens "length fs + 1" "beforeHistory meter s mdl uc fs"]
  show "(j < includedTurns meter s mdl history uc fs maxTokens) =
      (\<forall>i. 0 < i \<and> i \<le> j \<longrightarrow> costAfter meter s mdl history uc fs i \<le> maxTokens)"
    by (simp only: includedTurns_def tokens_costAfter)
next
  assume "includedTurns meter s mdl history uc fs maxTokens < length (butlast history)"
  then have "turnsWalked meter maxTokens (length fs + 1) (rev (butlast history))
               (beforeHistory meter s mdl uc fs) < length (rev (butlast history))"
    by (simp add: includedTurns_def)
  from turnsWalked_stop [OF this]
  show "maxTokens <
      costAfter meter s mdl history uc fs (includedTurns meter s mdl history uc fs maxTokens)"
    by (simp only: includedTurns_def tokens_costAfter)
qed

text \<open>
  With a budget of 24 the walk over the example history inserts the two newest of the
  three turns it can reach: the first brings the cost to 21, the second to 25, above the
  budget, and is in the output; the oldest turn is left out.
\<close>

theorem overflowing_turn_is_included_witness:
  "1 < includedTurns lengthMeter ''sys'' ''gpt'' exampleHistory ''uc'' exampleShots 24 \<and>
   \<not> 2 < includedTurns lengthMeter ''sys'' ''gpt'' exampleHistory ''uc'' exampleShots 24 \<and>
   costAfter lengthMeter ''sys'' ''gpt'' exampleHistory ''uc'' exampleShots 1 = 21 \<and>
   costAfter lengthMeter ''sys'' ''gpt'' exampleHistory ''uc'' exampleShots 2 = 25 \<and>
   fst (getMessagesFromHistory lengthMeter ''sys'' ''gpt'' exampleHistory ''uc'' exampleShots 24) =
     [\<lparr>role = System, content = ''sys''\<rparr>, \<lparr>role = User, content = ''f1''\<rparr>,
      \<lparr>role = Assistant, content = ''f2''\<rparr>, \<lparr>role = User, content = ''q2''\<rparr>,
      \<lparr>role = Assistant, content = ''a3''\<rparr>, \<lparr>role = User, content = ''uc''\<rparr>]"
proof -
  let ?k = "includedTurns lengthMeter ''sys'' ''gpt'' exampleHistory ''uc'' exampleShots 24"
  let ?cost = "costAfter lengthMeter ''sys'' ''gpt'' exampleHistory ''uc'' exampleShots"
  note inst = overflowing_turn_is_included
    [of lengthMeter "''sys''" "''gpt''" exampleHistory "''uc''" exampleShots 24]
  have len: "length (butlast exampleHistory) = 3" by code_simp
  have c1: "?cost 1 = 21" by code_simp
  have c2: "?cost 2 = 25" by code_simp
  have k: "?k = 2" by code_simp
  have j1: "(1 < ?k) = (\<forall>i. 0 < i \<and> i \<le> 1 \<longrightarrow> ?cost i \<le> 24)"
    using inst len by simp
  have "\<forall>i. 0 < i \<and> i \<le> (1::nat) \<longrightarrow> ?cost i \<le> 24"
  proof (intro allI impI)
    fix i :: nat assume "0 < i \<and> i \<le> 1"
    then have "i = 1" by simp
    then show "?cost i \<le> 24" using c1 by simp
  qed
  with j1 have a: "1 < ?k" by simp
  have "(2 < ?k) = (\<forall>i. 0 < i \<and> i \<le> 2 \<longrightarrow> ?cost i \<le> 24)"
    using inst len by simp
  moreover have "\<not> (\<forall>i. 0 < i \<and> i \<le> (2::nat) \<longrightarrow> ?cost i \<le> 24)"
  proof
    assume "\<forall>i. 0 < i \<and> i \<le> (2::nat) \<longrightarrow> ?cost i \<le> 24"
    then have "0 < (2::nat) \<and> (2::nat) \<le> 2 \<longrightarrow> ?cost 2 \<le> 24" by (rule spec)
    then show False using c2 by simp
  qed
  ultimately have b: "\<not> 2 < ?k" by simp
  have "fst (getMessagesFromHistory lengthMeter ''sys'' ''gpt'' exampleHistory ''uc'' exampleShots 24) =
        assembled ''sys'' exampleShots (newestTurns ?k exampleHistory) ''uc''"
    using inst by simp
  moreover have "assembled ''sys'' exampleShots (newestTurns 2 exampleHistory) ''uc'' =
     [\<lparr>role = System, content = ''sys''\<rparr>, \<lparr>role = User, content = ''f1''\<rparr>,
      \<lparr>role = Assistant, content = ''f2''\<rparr>, \<lparr>role = User, content = ''q2''\<rparr>,
      \<lparr>role = Assistant, content = ''a3''\<rparr>, \<lparr>role = User, content = ''uc''\<rparr>]"
    by code_simp
  ultimately show ?thesis using a b c1 c2 k by simp
qed

text \<open>
  Claim C3. The few-shot messages stand in the output in the order of the list the call
  receives, right after the system prompt, although the loop goes through them in
  reverse.
\<close>

theorem few_shots_forward_after_system_prompt:
  "take (length fs) (drop 1 (fst (getMessagesFromHistory meter s mdl history uc fs maxTokens))) = fs \<and>
   hd (fst (getMessagesFromHistory meter s mdl history uc fs maxTokens)) =
     \<lparr>role = System, content = s\<rparr>"
  by (simp add: getMessagesFromHistory_fst assembled_def)

text \<open>
  Claim C4. With everything else fixed, a larger budget never includes fewer history
  turns: the turns included under the smaller budget are the newest of those included
  under the larger one.
\<close>

theorem included_turns_monotone:
  assumes "maxTokens1 \<le> maxTokens2"
  shows "includedTurns meter s mdl history uc fs maxTokens1 \<le>
           includedTurns meter s mdl history uc fs maxTokens2 \<and>
         fst (getMessagesFromHistory meter s mdl history uc fs maxTokens1) =
           assembled s fs
             (newestTurns (includedTurns meter s mdl history uc fs maxTokens1) history) uc \<and>
         (\<exists>older.
            fst (getMessagesFromHistory meter s mdl history uc fs maxTokens2) =
              assembled s fs
                (older @ newestTurns (includedTurns meter s mdl history uc fs maxTokens1) history)
                uc)"
proof -
  have le: "includedTurns meter s mdl history uc fs maxTokens1 \<le>
            includedTurns meter s mdl history uc fs maxTokens2"
    using assms by (simp add: includedTurns_def turnsWalked_mono)
  from newestTurns_older [OF le] obtain older where
    "newestTurns (includedTurns meter s mdl history uc fs maxTokens2) history =
     older @ newestTurns (includedTurns meter s mdl history uc fs maxTokens1) history" ..
  then have "fst (getMessagesFromHistory meter s mdl history uc fs maxTokens2) =
     assembled s fs
       (older @ newestTurns (includedTurns meter s mdl history uc fs maxTokens1) history) uc"
    by (simp add: getMessagesFromHistory_fst)
  then show ?thesis using le getMessagesFromHistory_fst by blast
qed

theorem included_turns_monotone_witness:
  "(20::int) \<le> 24 \<and>
   includedTurns lengthMeter ''sys'' ''gpt'' exampleHistory ''uc'' exampleShots 20 = 1 \<and>
   includedTurns lengthMeter ''sys'' ''gpt'' exampleHistory ''uc'' exampleShots 24 = 2 \<and>
   includedTurns lengthMeter ''sys'' ''gpt'' exampleHistory ''uc'' exampleShots 20 \<le>
     includedTurns lengthMeter ''sys'' ''gpt'' exampleHistory ''uc'' exampleShots 24"
proof -
  have le: "(20::int) \<le> 24" by simp
  have k1: "includedTurns lengthMeter ''sys'' ''gpt'' exampleHistory ''uc'' exampleShots 20 = 1"
    by code_simp
  have k2: "includedTurns lengthMeter ''sys'' ''gpt'' exampleHistory ''uc'' exampleShots 24 = 2"
    by code_simp
  from included_turns_monotone [OF le, of lengthMeter "''sys''" "''gpt''" exampleHistory "''uc''" exampleShots]
  have "includedTurns lengthMeter ''sys'' ''gpt'' exampleHistory ''uc'' exampleShots 20 \<le>
        includedTurns lengthMeter ''sys'' ''gpt'' exampleHistory ''uc'' exampleShots 24"
    by (rule conjunct1)
  then show ?thesis using le k1 k2 by simp
qed

text \<open>
  Claim C5. A second call with the same few-shot array does not return the sequence of
  the first: \<^verbatim>\<open>fewShots.reverse()\<close> leaves the caller's array reversed, and the second
  call reads it so. With the module's own \<^verbatim>\<open>QUERY_PROMPT_FEW_SHOTS\<close>, for every meter,
  prompt, history and budget, the two sequences differ and the array is changed.
\<close>

theorem second_call_sees_reversed_few_shots:
  "fst (getMessagesFromHistory meter s mdl history uc
          (snd (getMessagesFromHistory meter s mdl history uc QUERY_PROMPT_FEW_SHOTS maxTokens))
          maxTokens)
     \<noteq> fst (getMessagesFromHistory meter s mdl history uc QUERY_PROMPT_FEW_SHOTS maxTokens) \<and>
   snd (getMessagesFromHistory meter s mdl history uc QUERY_PROMPT_FEW_SHOTS maxTokens)
     \<noteq> QUERY_PROMPT_FEW_SHOTS \<and>
   snd (getMessagesFromHistory meter s mdl history uc QUERY_PROMPT_FEW_SHOTS maxTokens) =
     rev QUERY_PROMPT_FEW_SHOTS"
  by (simp add: getMessagesFromHistory_fst getMessagesFromHistory_snd assembled_def
      QUERY_PROMPT_FEW_SHOTS_def)

section \<open>Properties of the pipeline steps\<close>

lemma lastElement_nonempty: "history \<noteq> [] \<Longrightarrow> lastElement history = Inr (last history)"
  by (simp add: lastElement_def)

lemma baseRun_empty: "baseRun this shots [] ctx = (Inl TypeError, shots)"
  by (simp add: baseRun_def lastElement_def)

lemma baseRun_after_completion:
  assumes "history \<noteq> []"
    and "createCompletion this (fst (queryRequest this shots history (last history))) = Inr completion"
    and "choices completion = choice # others"
  shows "baseRun this shots history ctx =
     (case searchDocuments this (queryText (message_content choice) (last history)) ctx of
        Inl e \<Rightarrow> Inl e
      | Inr found \<Rightarrow>
          Inr (answerRequest this history (last history) ctx
                 (request_messages (fst (queryRequest this shots history (last history)))) found),
      snd (queryRequest this shots history (last history)))"
  using assms
  by (simp add: baseRun_def lastElement_def firstElement_def split_beta split: sum.splits)

lemma queryRequest_messages:
  "request_messages (fst (queryRequest this shots history lastTurn)) =
   fst (getMessagesFromHistory (tokenMeter this) QUERY_PROMPT_TEMPLATE (chatGptModel this)
          history (userQuery lastTurn) shots
          (chatGptTokenLimit this - int (length (userQuery lastTurn))))"
  by (simp add: queryRequest_def split_beta)

lemma yieldChunks_later:
  "\<forall>chunk \<in> set stream. chunk_choices chunk \<noteq> [] \<Longrightarrow>
   yieldChunks dps th (Suc k) stream =
   (map (\<lambda>chunk. \<lparr>data_points = None, thoughts = None, answer = deltaText chunk\<rparr>) stream, None)"
proof (induction stream arbitrary: k)
  case Nil
  then show ?case by simp
next
  case (Cons chunk stream)
  then obtain choice others where c: "chunk_choices chunk = choice # others"
    by (cases "chunk_choices chunk") auto
  from Cons have "yieldChunks dps th (Suc (Suc k)) stream =
    (map (\<lambda>chunk. \<lparr>data_points = None, thoughts = None, answer = deltaText chunk\<rparr>) stream, None)"
    by simp
  then show ?case using c by (simp add: firstElement_def deltaText_def)
qed

lemma yieldChunks_first:
  assumes "\<forall>chunk \<in> set (first # later). chunk_choices chunk \<noteq> []"
  shows "yieldChunks dps th 0 (first # later) =
   (\<lparr>data_points = Some dps, thoughts = Some th, answer = deltaText first\<rparr> #
    map (\<lambda>chunk. \<lparr>data_points = None, thoughts = None, answer = deltaText chunk\<rparr>) later, None)"
proof -
  from assms obtain choice others where c: "chunk_choices first = choice # others"
    by (cases "chunk_choices first") auto
  from assms have "\<forall>chunk \<in> set later. chunk_choices chunk \<noteq> []" by simp
  from yieldChunks_later [OF this, of dps th 0] show ?thesis using c
    by (simp add: firstElement_def deltaText_def)
qed

lemma ex_fields:
  "createCompletion (exampleApproach reply) = (\<lambda>request. Inr \<lparr>choices = [\<lparr>message_content = reply\<rparr>]\<rparr>)"
  "searchDocuments (exampleApproach reply) =
     (\<lambda>query ctx. Inr \<lparr>found_query = orEmpty query, found_results = [toStr query],
                           found_content = ''info1.txt: text''\<rparr>)"
  "createCompletionStream (exampleApproach reply) =
        (\<lambda>request. Inr [\<lparr>chunk_choices = [\<lparr>delta_content = Some ''Hel''\<rparr>]\<rparr>,
                        \<lparr>chunk_choices = [\<lparr>delta_content = Some ''lo''\<rparr>]\<rparr>,
                        \<lparr>chunk_choices = [\<lparr>delta_content = Some '' there''\<rparr>]\<rparr>])"
  by (simp_all add: exampleApproach_def)

lemma template_split:
  "SYSTEM_MESSAGE_CHAT_CONVERSATION =
   systemInstructions @ ''{follow_up_questions_prompt}'' @ ''\<newline>{injected_prompt}\<newline>''"
  by (simp add: SYSTEM_MESSAGE_CHAT_CONVERSATION_def systemInstructions_def)

lemma systemInstructions_no_brace: "CHR ''{'' \<notin> set systemInstructions"
  by (simp add: systemInstructions_def)

lemma follow_up_no_brace: "CHR ''{'' \<notin> set FOLLOW_UP_QUESTIONS_PROMPT_CONTENT"
  by (simp add: FOLLOW_UP_QUESTIONS_PROMPT_CONTENT_def)

lemma follow_up_no_dollar: "CHR ''$'' \<notin> set FOLLOW_UP_QUESTIONS_PROMPT_CONTENT"
  by (simp add: FOLLOW_UP_QUESTIONS_PROMPT_CONTENT_def)

lemma startsWith_append: "startsWith (p @ rest) p"
  by (simp add: startsWith_def)

lemma indexOf_first:
  "c \<notin> set pre \<Longrightarrow> indexOf (pre @ c # pat @ rest) (c # pat) = Some (length pre)"
proof (induction pre)
  case Nil
  have "startsWith ((c # pat) @ rest) (c # pat)" by (rule startsWith_append)
  then show ?case by simp
next
  case (Cons x pre)
  then have "x \<noteq> c" by auto
  then have "\<not> startsWith (x # pre @ c # pat @ rest) (c # pat)"
    by (simp add: startsWith_def)
  then show ?case using Cons by simp
qed

lemma getSubstitution_plain:
  "CHR ''$'' \<notin> set r \<Longrightarrow> getSubstitution matched str position r = r"
  by (induction matched str position r rule: getSubstitution.induct) auto

lemma replace_first:
  "c \<notin> set pre \<Longrightarrow>
   replace (pre @ c # pat @ rest) (c # pat) r =
   pre @ getSubstitution (c # pat) (pre @ c # pat @ rest) (length pre) r @ rest"
  by (simp add: replace_def indexOf_first)

lemma followUp_cases:
  "followUpQuestionsPrompt ctx = [] \<or> followUpQuestionsPrompt ctx = FOLLOW_UP_QUESTIONS_PROMPT_CONTENT"
  by (simp add: followUpQuestionsPrompt_def split: option.splits bool.splits)

lemma followUp_no_brace: "CHR ''{'' \<notin> set (followUpQuestionsPrompt ctx)"
  using followUp_cases [of ctx] follow_up_no_brace by auto

lemma followUp_no_dollar: "CHR ''$'' \<notin> set (followUpQuestionsPrompt ctx)"
  using followUp_cases [of ctx] follow_up_no_dollar by auto

lemma base_template:
  "replace SYSTEM_MESSAGE_CHAT_CONVERSATION ''{follow_up_questions_prompt}''
     (followUpQuestionsPrompt ctx) =
   systemInstructions @ followUpQuestionsPrompt ctx @ ''\<newline>{injected_prompt}\<newline>''"
proof -
  have "replace (systemInstructions @ CHR ''{'' # ''follow_up_questions_prompt}'' @
                   ''\<newline>{injected_prompt}\<newline>'')
          (CHR ''{'' # ''follow_up_questions_prompt}'') (followUpQuestionsPrompt ctx) =
        systemInstructions @
        getSubstitution (CHR ''{'' # ''follow_up_questions_prompt}'')
          (systemInstructions @ CHR ''{'' # ''follow_up_questions_prompt}'' @
             ''\<newline>{injected_prompt}\<newline>'')
          (length systemInstructions) (followUpQuestionsPrompt ctx) @
        ''\<newline>{injected_prompt}\<newline>''"
    by (rule replace_first [OF systemInstructions_no_brace])
  then show ?thesis
    by (simp add: template_split getSubstitution_plain [OF followUp_no_dollar])
qed

lemma inject:
  "replace (systemInstructions @ followUpQuestionsPrompt ctx @ ''\<newline>{injected_prompt}\<newline>'')
     ''{injected_prompt}'' r =
   systemInstructions @ followUpQuestionsPrompt ctx @ ''\<newline>'' @
   getSubstitution ''{injected_prompt}''
     (systemInstructions @ followUpQuestionsPrompt ctx @ ''\<newline>{injected_prompt}\<newline>'')
     (length (systemInstructions @ followUpQuestionsPrompt ctx @ ''\<newline>'')) r @
   ''\<newline>''"
proof -
  have nb: "CHR ''{'' \<notin> set (systemInstructions @ followUpQuestionsPrompt ctx @ ''\<newline>'')"
    using systemInstructions_no_brace followUp_no_brace [of ctx] by simp
  have "replace ((systemInstructions @ followUpQuestionsPrompt ctx @ ''\<newline>'') @
                   CHR ''{'' # ''injected_prompt}'' @ ''\<newline>'')
          (CHR ''{'' # ''injected_prompt}'') r =
        (systemInstructions @ followUpQuestionsPrompt ctx @ ''\<newline>'') @
        getSubstitution (CHR ''{'' # ''injected_prompt}'')
          ((systemInstructions @ followUpQuestionsPrompt ctx @ ''\<newline>'') @
             CHR ''{'' # ''injected_prompt}'' @ ''\<newline>'')
          (length (systemInstructions @ followUpQuestionsPrompt ctx @ ''\<newline>'')) r @
        ''\<newline>''"
    by (rule replace_first [OF nb])
  then show ?thesis by simp
qed

lemma systemMessage_plain:
  assumes "CHR ''$'' \<notin> set (orEmpty (promptOverride ctx))"
  shows "systemMessage ctx =
         resolvedSystemPrompt (followUpQuestionsPrompt ctx) (injectedPromptBySpec (promptOverride ctx))"
proof (cases "promptOverride ctx")
  case None
  then show ?thesis
    by (simp add: systemMessage_def base_template inject resolvedSystemPrompt_def
        injectedPromptBySpec_def)
next
  case (Some p)
  with assms have nd: "CHR ''$'' \<notin> set p" by simp
  then have nd3: "CHR ''$'' \<notin> set (drop 3 p @ ''\<newline>'')"
    by (auto dest: in_set_dropD)
  show ?thesis
  proof (cases "startsWith p ''>>>''")
    case True
    then show ?thesis using Some
      by (simp add: systemMessage_def base_template inject resolvedSystemPrompt_def
          injectedPromptBySpec_def getSubstitution_plain [OF nd3] del: append_assoc)
  next
    case False
    then show ?thesis using Some
      by (cases "p = []")
         (simp_all add: systemMessage_def base_template inject resolvedSystemPrompt_def
          injectedPromptBySpec_def getSubstitution_plain [OF nd])
  qed
qed

section \<open>Claims about the pipeline\<close>

text \<open>
  Claim C6, as the code has it. After a completion that has a first choice, the query
  handed to the search is the user text of the last turn when the trimmed completion text
  is exactly \<^verbatim>\<open>'0'\<close>; in every other case it is the trimmed completion text, also when
  that is empty, and no query when the completion has no text. The step itself has no
  failure: past the completion, only the search can make \<open>baseRun\<close> fail.
\<close>

theorem query_falls_back_on_sentinel_only:
  assumes "history \<noteq> []"
    and "createCompletion this (fst (queryRequest this shots history (last history))) = Inr completion"
    and "choices completion = choice # others"
  shows "fst (baseRun this shots history ctx) =
     (case searchDocuments this
             (case message_content choice of
                None \<Rightarrow> None
              | Some text \<Rightarrow> if trim text = ''0'' then user (last history) else Some (trim text))
             ctx of
        Inl e \<Rightarrow> Inl e
      | Inr found \<Rightarrow>
          Inr (answerRequest this history (last history) ctx
                 (request_messages (fst (queryRequest this shots history (last history)))) found))"
proof -
  have "queryText (message_content choice) (last history) =
        (case message_content choice of
                None \<Rightarrow> None
              | Some text \<Rightarrow> if trim text = ''0'' then user (last history) else Some (trim text))"
    by (simp add: queryText_def split: option.splits)
  then show ?thesis using baseRun_after_completion [OF assms, of ctx] by simp
qed

theorem query_falls_back_on_sentinel_only_witness:
  "map_sum id dataPoints
     (fst (baseRun (exampleApproach (Some '' 0 '')) QUERY_PROMPT_FEW_SHOTS paymentHistory None)) =
   Inr [''What happens if a payment error occurs?''] \<and>
   map_sum id dataPoints
     (fst (baseRun (exampleApproach (Some '' Payment errors\<newline>'')) QUERY_PROMPT_FEW_SHOTS paymentHistory None)) =
   Inr [''Payment errors'']"
proof -
  have ne: "paymentHistory \<noteq> []" by (simp add: paymentHistory_def)
  have u: "user (last paymentHistory) = Some ''What happens if a payment error occurs?''"
    by (simp add: paymentHistory_def)
  have t0: "trim '' 0 '' = ''0''" by (simp add: trim_def isWhiteSpace_def)
  have t1: "trim '' Payment errors\<newline>'' = ''Payment errors''" by (simp add: trim_def isWhiteSpace_def)
  have c: "createCompletion (exampleApproach reply)
             (fst (queryRequest (exampleApproach reply) QUERY_PROMPT_FEW_SHOTS paymentHistory
                     (last paymentHistory))) =
           Inr \<lparr>choices = [\<lparr>message_content = reply\<rparr>]\<rparr>" for reply
    by (simp add: ex_fields)
  have ch: "choices \<lparr>choices = [\<lparr>message_content = reply\<rparr>]\<rparr> = \<lparr>message_content = reply\<rparr> # []" for reply
    by simp
  show ?thesis
    using query_falls_back_on_sentinel_only [OF ne c ch, of "Some '' 0 ''" None]
          query_falls_back_on_sentinel_only [OF ne c ch, of "Some '' Payment errors\<newline>''" None]
    by (simp add: t0 t1 u ex_fields answerRequest_def Let_def)
qed

text \<open>
  Claim C6, as it is worded, fails on a completion of two spaces: the trimmed text is
  empty, and the empty text, not the user's question, is handed to the search.
\<close>

theorem empty_completion_is_not_replaced:
  "trim ''  '' = [] \<and>
   queryText (Some ''  '') \<lparr>user = Some ''hi'', bot = None\<rparr> = Some [] \<and>
   queryText (Some ''  '') \<lparr>user = Some ''hi'', bot = None\<rparr> \<noteq>
     user \<lparr>user = Some ''hi'', bot = None\<rparr> \<and>
   map_sum id dataPoints
     (fst (baseRun (exampleApproach (Some ''  '')) QUERY_PROMPT_FEW_SHOTS paymentHistory None)) =
   Inr ['''']"
proof -
  have t: "trim ''  '' = []" by (simp add: trim_def isWhiteSpace_def)
  have q: "queryText (Some ''  '') h = Some []" for h by (simp add: queryText_def t)
  have "fst (baseRun (exampleApproach (Some ''  '')) QUERY_PROMPT_FEW_SHOTS paymentHistory None) =
        Inr (answerRequest (exampleApproach (Some ''  '')) paymentHistory (last paymentHistory) None
               (request_messages (fst (queryRequest (exampleApproach (Some ''  ''))
                   QUERY_PROMPT_FEW_SHOTS paymentHistory (last paymentHistory))))
               \<lparr>found_query = [], found_results = [[]], found_content = ''info1.txt: text''\<rparr>)"
    by (simp add: baseRun_def lastElement_def firstElement_def split_beta ex_fields q
        paymentHistory_def)
  then show ?thesis by (simp add: t q answerRequest_def Let_def)
qed

text \<open>
  Claim C7. The three branches put the override into the template through
  \<^verbatim>\<open>String.prototype.replace\<close>, which expands dollar patterns in its replacement text. The
  override \<^verbatim>\<open>Quote prices in $$\<close> has no \<^verbatim>\<open>>>>\<close> prefix, and the placeholder is replaced by
  \<^verbatim>\<open>Quote prices in $\<close>, not by the override verbatim.
\<close>

theorem override_dollar_pattern_is_expanded:
  "systemMessage (Some \<lparr>suggest_followup_questions = None,
                        prompt_template = Some ''Quote prices in $$'', temperature = None\<rparr>) =
     resolvedSystemPrompt [] ''Quote prices in $'' \<and>
   systemMessage (Some \<lparr>suggest_followup_questions = None,
                        prompt_template = Some ''Quote prices in $$'', temperature = None\<rparr>) \<noteq>
     resolvedSystemPrompt [] ''Quote prices in $$''"
proof -
  let ?ctx = "Some \<lparr>suggest_followup_questions = None,
                        prompt_template = Some ''Quote prices in $$'', temperature = None\<rparr>"
  have fu: "followUpQuestionsPrompt ?ctx = []" by (simp add: followUpQuestionsPrompt_def)
  have po: "promptOverride ?ctx = Some ''Quote prices in $$''" by (simp add: promptOverride_def)
  have sw: "\<not> startsWith ''Quote prices in $$'' ''>>>''" by (simp add: startsWith_def)
  have gs: "getSubstitution m s q ''Quote prices in $$'' = ''Quote prices in $''" for m s q
    by simp
  have base: "replace SYSTEM_MESSAGE_CHAT_CONVERSATION ''{follow_up_questions_prompt}'' [] =
              systemInstructions @ ''\<newline>{injected_prompt}\<newline>''"
    using base_template [of ?ctx] by (simp only: fu append_Nil)
  have inj: "replace (systemInstructions @ ''\<newline>{injected_prompt}\<newline>'') ''{injected_prompt}''
               ''Quote prices in $$'' =
             systemInstructions @ ''\<newline>'' @ ''Quote prices in $'' @ ''\<newline>''"
    using inject [of ?ctx "''Quote prices in $$''"] by (simp only: fu append_Nil gs)
  have "systemMessage ?ctx = resolvedSystemPrompt [] ''Quote prices in $''"
    by (simp add: systemMessage_def po sw fu base inj resolvedSystemPrompt_def)
  then show ?thesis by (simp add: resolvedSystemPrompt_def)
qed

text \<open>
  Claim C8. When the three steps succeed and every chunk of the streamed completion has a
  first choice, the generator ends without an error after one chunk for each chunk of
  the stream, in order: each carries the text of its delta, the first alone carries the
  data points and the thoughts, and the answers concatenated are the deltas concatenated.
\<close>

theorem streamed_chunks_metadata_first_only:
  assumes "baseRun this shots history ctx = (Inr b, shots')"
    and "createCompletionStream this (completionRequest b) = Inr stream"
    and "\<forall>chunk \<in> set stream. chunk_choices chunk \<noteq> []"
  shows "\<exists>chunks.
     fst (runWithStreaming this shots history ctx) = (chunks, None) \<and>
     length chunks = length stream \<and>
     map answer chunks = map deltaText stream \<and>
     concat (map answer chunks) = concat (map deltaText stream) \<and>
     map data_points chunks = (if stream = [] then [] else Some (dataPoints b) # replicate (length stream - 1) None) \<and>
     map thoughts chunks = (if stream = [] then [] else Some (baseThoughts b) # replicate (length stream - 1) None)"
proof (cases stream)
  case Nil
  then show ?thesis using assms by (simp add: runWithStreaming_def)
next
  case (Cons first later)
  with assms(3) have "\<forall>chunk \<in> set (first # later). chunk_choices chunk \<noteq> []" by simp
  from yieldChunks_first [OF this, of "dataPoints b" "baseThoughts b"]
  show ?thesis using assms(1,2) Cons
    by (simp add: runWithStreaming_def comp_def map_replicate_const)
qed

theorem streamed_chunks_metadata_first_only_witness:
  "map answer (fst (fst (runWithStreaming (exampleApproach (Some ''payment error''))
      QUERY_PROMPT_FEW_SHOTS paymentHistory None))) = [''Hel'', ''lo'', '' there''] \<and>
   concat (map answer (fst (fst (runWithStreaming (exampleApproach (Some ''payment error''))
      QUERY_PROMPT_FEW_SHOTS paymentHistory None)))) = ''Hello there'' \<and>
   map data_points (fst (fst (runWithStreaming (exampleApproach (Some ''payment error''))
      QUERY_PROMPT_FEW_SHOTS paymentHistory None))) = [Some [''payment error''], None, None] \<and>
   map (\<lambda>chunk. thoughts chunk = None) (fst (fst (runWithStreaming (exampleApproach (Some ''payment error''))
      QUERY_PROMPT_FEW_SHOTS paymentHistory None))) = [False, True, True] \<and>
   snd (fst (runWithStreaming (exampleApproach (Some ''payment error''))
      QUERY_PROMPT_FEW_SHOTS paymentHistory None)) = None"
proof -
  let ?ex = "exampleApproach (Some ''payment error'')"
  let ?stream = "[\<lparr>chunk_choices = [\<lparr>delta_content = Some ''Hel''\<rparr>]\<rparr>,
                        \<lparr>chunk_choices = [\<lparr>delta_content = Some ''lo''\<rparr>]\<rparr>,
                        \<lparr>chunk_choices = [\<lparr>delta_content = Some '' there''\<rparr>]\<rparr>]"
  have t: "trim ''payment error'' = ''payment error''" by (simp add: trim_def isWhiteSpace_def)
  obtain b where b: "baseRun ?ex QUERY_PROMPT_FEW_SHOTS paymentHistory None =
      (Inr b, snd (queryRequest ?ex QUERY_PROMPT_FEW_SHOTS paymentHistory (last paymentHistory)))"
     and dp: "dataPoints b = [''payment error'']"
    by (simp add: baseRun_def lastElement_def firstElement_def split_beta ex_fields queryText_def t
        paymentHistory_def answerRequest_def Let_def)
  have s: "createCompletionStream ?ex (completionRequest b) = Inr ?stream"
    by (simp add: ex_fields)
  have ne: "\<forall>chunk \<in> set ?stream. chunk_choices chunk \<noteq> []" by simp
  from streamed_chunks_metadata_first_only [OF b s ne] obtain chunks where
    r: "fst (runWithStreaming ?ex QUERY_PROMPT_FEW_SHOTS paymentHistory None) = (chunks, None)"
    and a: "map answer chunks = map deltaText ?stream"
    and d: "map data_points chunks = Some (dataPoints b) # replicate (length ?stream - 1) None"
    and th: "map thoughts chunks = Some (baseThoughts b) # replicate (length ?stream - 1) None"
    by auto
  have "map (\<lambda>chunk. thoughts chunk = None) chunks = map (\<lambda>t. t = None) (map thoughts chunks)"
    by (simp add: comp_def)
  also have "\<dots> = [False, True, True]" by (simp add: th)
  finally have th': "map (\<lambda>chunk. thoughts chunk = None) chunks = [False, True, True]" .
  show ?thesis using r a d th' dp by (simp add: deltaText_def)
qed

text \<open>
  Claim C9. For a non-empty history whose last turn has the user text \<open>U\<close>, the last
  message of the query-rewrite request, which is also its last user message, has the
  content \<^verbatim>\<open>Generate search query for: \<close> followed by \<open>U\<close>.
\<close>

theorem query_prompt_ends_with_instruction:
  assumes "history \<noteq> []" and "user (last history) = Some U"
  shows "lastElement history = Inr (last history) \<and>
         last (request_messages (fst (queryRequest this shots history (last history)))) =
           \<lparr>role = User, content = ''Generate search query for: '' @ U\<rparr> \<and>
         last (filter (\<lambda>m. role m = User)
                 (request_messages (fst (queryRequest this shots history (last history))))) =
           \<lparr>role = User, content = ''Generate search query for: '' @ U\<rparr>"
  using assms
  by (simp add: lastElement_def queryRequest_messages getMessagesFromHistory_fst assembled_def
      userQuery_def)

theorem query_prompt_ends_with_instruction_witness:
  "last (request_messages (fst (queryRequest (exampleApproach None) QUERY_PROMPT_FEW_SHOTS
           paymentHistory (last paymentHistory)))) =
   \<lparr>role = User, content = ''Generate search query for: What happens if a payment error occurs?''\<rparr>"
proof -
  have ne: "paymentHistory \<noteq> []" by (simp add: paymentHistory_def)
  have u: "user (last paymentHistory) = Some ''What happens if a payment error occurs?''"
    by (simp add: paymentHistory_def)
  from query_prompt_ends_with_instruction [OF ne u, of "exampleApproach None" QUERY_PROMPT_FEW_SHOTS]
  show ?thesis by simp
qed

text \<open>
  Claim C10. \<open>run\<close> and \<open>runWithStreaming\<close> read the last turn of the history first and
  without a guard. On an empty history both end with a TypeError before any service is
  called and before the few-shot array is touched; on a non-empty history the read
  succeeds. When the last turn has no user text, the instruction that is built reads
  \<^verbatim>\<open>undefined\<close> in its place.
\<close>

theorem empty_history_is_a_type_error:
  "run this shots [] ctx = (Inl TypeError, shots) \<and>
   runWithStreaming this shots [] ctx = (([], Some TypeError), shots) \<and>
   lastElement (history @ [lastTurn]) = Inr lastTurn \<and>
   userQuery \<lparr>user = None, bot = b\<rparr> = ''Generate search query for: undefined'' \<and>
   userQuery \<lparr>user = Some u, bot = b\<rparr> = ''Generate search query for: '' @ u"
  by (simp add: run_def runWithStreaming_def baseRun_empty lastElement_def userQuery_def)

end
